theory Spec2Isabelle
  imports Complex_Main "HOL-Library.Sublist"
begin

section \<open>Python string operations used by the scanner and the controller\<close>

text \<open>
  Strings are lists of characters. The operations below are the ones
  \<^verbatim>\<open>scanner.py\<close> and \<^verbatim>\<open>controller.py\<close> call on \<^verbatim>\<open>str\<close>
  objects.
\<close>

datatype exn =
    AttributeError
  | TypeError
  | IndexError
  | RequestException
  | SkipTargetInterrupt
  | SystemExit int

text \<open>\<^verbatim>\<open>s.startswith(t)\<close> and \<^verbatim>\<open>s.endswith(t)\<close>.\<close>

definition startswith :: "string \<Rightarrow> string \<Rightarrow> bool" where
  "startswith s t = prefix t s"

definition endswith :: "string \<Rightarrow> string \<Rightarrow> bool" where
  "endswith s t = suffix t s"

text \<open>
  \<^verbatim>\<open>s.replace(old, new)\<close>: every non-overlapping occurrence of \<open>old\<close>, found
  from the left, becomes \<open>new\<close>. The counter is the number of characters of
  the occurrence just replaced that are still to be skipped. An empty \<open>old\<close>
  puts \<open>new\<close> before every character and at the end.
\<close>

fun replace_from :: "nat \<Rightarrow> string \<Rightarrow> string \<Rightarrow> string \<Rightarrow> string" where
  "replace_from k [] old new = []"
| "replace_from (Suc k) (c # cs) old new = replace_from k cs old new"
| "replace_from 0 (c # cs) old new =
     (if startswith (c # cs) old then new @ replace_from (length old - 1) cs old new
      else c # replace_from 0 cs old new)"

definition py_replace :: "string \<Rightarrow> string \<Rightarrow> string \<Rightarrow> string" where
  "py_replace s old new =
     (if old = [] then concat (map (\<lambda>c. new @ [c]) s) @ new
      else replace_from 0 s old new)"

text \<open>\<^verbatim>\<open>s.split(sep)\<close> for a one-character separator.\<close>

fun py_split :: "string \<Rightarrow> char \<Rightarrow> string list" where
  "py_split [] sep = [[]]"
| "py_split (c # cs) sep =
     (if c = sep then [] # py_split cs sep
      else (case py_split cs sep of
              [] \<Rightarrow> [[c]]
            | w # ws \<Rightarrow> (c # w) # ws))"

text \<open>\<^verbatim>\<open>sep.join(xs)\<close>.\<close>

fun py_join :: "string \<Rightarrow> string list \<Rightarrow> string" where
  "py_join sep [] = []"
| "py_join sep [x] = x"
| "py_join sep (x # y # ys) = x @ sep @ py_join sep (y # ys)"

text \<open>\<^verbatim>\<open>s.count(c)\<close> for a one-character argument.\<close>

definition py_count :: "string \<Rightarrow> char \<Rightarrow> nat" where
  "py_count s c = length (filter (\<lambda>d. d = c) s)"

text \<open>\<^verbatim>\<open>s.rstrip(c)\<close> for a one-character argument.\<close>

definition py_rstrip :: "string \<Rightarrow> char \<Rightarrow> string" where
  "py_rstrip s c = rev (dropWhile (\<lambda>d. d = c) (rev s))"

text \<open>\<^verbatim>\<open>needle in haystack\<close> on strings.\<close>

definition py_contains :: "string \<Rightarrow> string \<Rightarrow> bool" where
  "py_contains needle haystack = list_ex (\<lambda>t. startswith t needle) (suffixes haystack)"

text \<open>Truth value of an optional string: \<^verbatim>\<open>None\<close> and \<^verbatim>\<open>""\<close> are false.\<close>

fun truthy :: "string option \<Rightarrow> bool" where
  "truthy None = False"
| "truthy (Some s) = (s \<noteq> [])"

section \<open>Python floats\<close>

text \<open>
  A float is an IEEE 754 double. The model keeps its value, a rational
  number. \<open>fl x\<close> is the double nearest to \<open>x\<close>, a tie going to the double
  with the even significand: the significand has 53 bits at the binary
  exponent of \<open>x\<close>, which is taken to be at least -1022, so that the
  subnormal numbers are spaced as in the machine. Numbers from \<open>2 ^ 1024\<close>
  on, where the machine overflows, do not occur: every float of the scanner
  lies between -2 and 2. A literal such as \<^verbatim>\<open>0.98\<close> is \<open>fl (98 / 100)\<close>, the
  difference of two floats \<open>a\<close> and \<open>b\<close> is \<open>fl (a - b)\<close>, and floats are
  compared by their values.
\<close>

fun halvings :: "nat \<Rightarrow> rat \<Rightarrow> nat" where
  "halvings 0 x = 0"
| "halvings (Suc k) x = (if 2 \<le> x then Suc (halvings k (x / 2)) else 0)"

fun doublings :: "nat \<Rightarrow> rat \<Rightarrow> nat" where
  "doublings 0 x = 0"
| "doublings (Suc k) x = (if x < 1 then Suc (doublings k (2 * x)) else 0)"

definition round_even :: "rat \<Rightarrow> int" where
  "round_even x =
     (let n = \<lfloor>x\<rfloor>; r = x - of_int n
      in if r < 1 / 2 then n
         else if 1 / 2 < r then n + 1
         else if even n then n
         else n + 1)"

definition pow2 :: "int \<Rightarrow> rat" where
  "pow2 e = (if 0 \<le> e then 2 ^ nat e else 1 / 2 ^ nat (- e))"

definition fl :: "rat \<Rightarrow> rat" where
  "fl x =
     (if x = 0 then 0
      else
        let a = \<bar>x\<bar>;
            e = (if 1 \<le> a then int (halvings 1023 a) else - int (doublings 1022 a));
            ulp = pow2 (e - 52)
        in sgn x * of_int (round_even (a / ulp)) * ulp)"

section \<open>The part of Python's \<^verbatim>\<open>re\<close> module the scanner uses\<close>

text \<open>
  \<^verbatim>\<open>re.escape\<close> (Python 3.7 and later) puts a backslash before each of the
  characters \<^verbatim>\<open>()[]{}?*+-|^$\.&~#\<close>, space, tab, newline, carriage return,
  vertical tab and form feed, and leaves every other character alone.
\<close>

definition special_chars :: "char list" where
  "special_chars =
     ''()[]{}?*+-|^$.&~# '' @ [CHR 0x5C, CHR 0x09, CHR 0x0A, CHR 0x0D, CHR 0x0B, CHR 0x0C]"

definition escape_chr :: "char \<Rightarrow> string" where
  "escape_chr c = (if c \<in> set special_chars then [CHR 0x5C, c] else [c])"

definition re_escape :: "string \<Rightarrow> string" where
  "re_escape s = concat (map escape_chr s)"

text \<open>
  The patterns \<^verbatim>\<open>generateRedirectRegExp\<close> builds consist of \<^verbatim>\<open>^\<close>,
  escaped and plain literal characters, \<^verbatim>\<open>.*\<close> and \<^verbatim>\<open>$\<close>. The parser reads
  exactly this fragment (and a lone \<^verbatim>\<open>.\<close>); any other metacharacter, and
  a backslash before a letter, a digit or nothing, is outside it and gives
  \<open>None\<close>.
\<close>

datatype tok = Bol | Eol | Lit char | Dot | DotStar

definition meta_chars :: "char list" where
  "meta_chars = ''()[]{}?*+|^$.'' @ [CHR 0x5C]"

definition alnum :: "char \<Rightarrow> bool" where
  "alnum c = (c \<in> set (''abcdefghijklmnopqrstuvwxyz'' @
                        ''ABCDEFGHIJKLMNOPQRSTUVWXYZ'' @ ''0123456789''))"

fun re_parse :: "string \<Rightarrow> tok list option" where
  "re_parse [] = Some []"
| "re_parse [c] =
     (if c = CHR ''^'' then Some [Bol]
      else if c = CHR ''$'' then Some [Eol]
      else if c = CHR ''.'' then Some [Dot]
      else if c \<in> set meta_chars then None
      else Some [Lit c])"
| "re_parse (c # d # cs) =
     (if c = CHR 0x5C then
        (if alnum d then None else map_option (\<lambda>ts. Lit d # ts) (re_parse cs))
      else if c = CHR ''.'' \<and> d = CHR ''*'' then
        map_option (\<lambda>ts. DotStar # ts) (re_parse cs)
      else if c = CHR ''^'' then map_option (\<lambda>ts. Bol # ts) (re_parse (d # cs))
      else if c = CHR ''$'' then map_option (\<lambda>ts. Eol # ts) (re_parse (d # cs))
      else if c = CHR ''.'' then map_option (\<lambda>ts. Dot # ts) (re_parse (d # cs))
      else if c \<in> set meta_chars then None
      else map_option (\<lambda>ts. Lit c # ts) (re_parse (d # cs)))"

text \<open>
  Matching from the current position, as \<^verbatim>\<open>re.match\<close> does without flags:
  the flag says whether the position is the start of the string; \<^verbatim>\<open>^\<close>
  matches only there, \<^verbatim>\<open>$\<close> at the end and before a final newline,
  \<^verbatim>\<open>.\<close> any character but a newline. The match need not reach the end.
\<close>

fun matches :: "bool \<Rightarrow> tok list \<Rightarrow> string \<Rightarrow> bool" where
  "matches st [] s = True"
| "matches st (Bol # ts) s = (st \<and> matches st ts s)"
| "matches st (Eol # ts) s = ((s = [] \<or> s = [CHR 0x0A]) \<and> matches st ts s)"
| "matches st (Lit c # ts) [] = False"
| "matches st (Lit c # ts) (d # s) = (c = d \<and> matches False ts s)"
| "matches st (Dot # ts) [] = False"
| "matches st (Dot # ts) (d # s) = (d \<noteq> CHR 0x0A \<and> matches False ts s)"
| "matches st (DotStar # ts) [] = matches st ts []"
| "matches st (DotStar # ts) (d # s) =
     (matches st ts (d # s) \<or> (d \<noteq> CHR 0x0A \<and> matches False (DotStar # ts) s))"

definition re_match :: "string \<Rightarrow> string \<Rightarrow> bool option" where
  "re_match pattern s = map_option (\<lambda>ts. matches True ts s) (re_parse pattern)"

section \<open>Scanner (\<^verbatim>\<open>lib/core/scanner.py\<close>)\<close>

text \<open>
  A response of the transport: status, optional body, optional redirect
  location, and the value of \<^verbatim>\<open>len(response)\<close> (the class is not part of
  the two source files, so its length is a field).
\<close>

record response =
  status :: int
  body :: "string option"
  redirect :: "string option"
  len :: nat

text \<open>
  The body comparator \<^verbatim>\<open>DynamicContentParser\<close> comes from
  \<^verbatim>\<open>thirdparty.sqlmap\<close>; the scanner reads its \<^verbatim>\<open>comparisonRatio\<close> and
  calls \<^verbatim>\<open>compareTo\<close>. Both give floats; the scanner of the model
  reads them through \<open>fl\<close>, which leaves the value of a double as it is.
\<close>

record parser =
  comparisonRatio :: rat
  compareTo :: "string option \<Rightarrow> rat"

record scanner =
  calibration :: "string option"
  suffix_str :: string
  prefix_str :: string
  redirectRegExp :: "string option"
  invalidStatus :: "int option"
  dynamicParser :: "parser option"
  ratio :: rat

text \<open>
  \<^verbatim>\<open>"{0:.2f}".format(x)\<close> writes the value of the double \<open>x\<close> rounded to
  two decimals, a tie going to the even neighbour: \<open>round2\<close> is the number
  written. \<^verbatim>\<open>float\<close> of that text is \<open>fl\<close> of the number.
\<close>

definition round2 :: "rat \<Rightarrow> rat" where
  "round2 x = of_int (round_even (x * 100)) / 100"

text \<open>The first loop of \<^verbatim>\<open>generateRedirectRegExp\<close>: the text appended to \<^verbatim>\<open>"^"\<close>.\<close>

fun common_head :: "string \<Rightarrow> string \<Rightarrow> string" where
  "common_head (f # fs) (s # ss) =
     (if f = s then re_escape [f] @ common_head fs ss else ''.*'')"
| "common_head fs ss = []"

text \<open>The second loop, over the reversed locations; \<open>end\<close> grows at its front.\<close>

fun common_tail :: "string \<Rightarrow> string \<Rightarrow> string \<Rightarrow> string" where
  "common_tail (f # fs) (s # ss) end =
     (if f = s then common_tail fs ss (re_escape [f] @ end) else end)"
| "common_tail fs ss end = end"

definition generateRedirectRegExp :: "string \<Rightarrow> string \<Rightarrow> string \<Rightarrow> string \<Rightarrow> string" where
  "generateRedirectRegExp firstLoc firstPath secondLoc secondPath =
     (let firstLoc = py_replace firstLoc firstPath ''DIRSEARCH_PATH'';
          secondLoc = py_replace secondLoc secondPath ''DIRSEARCH_PATH'';
          regexp = ''^'' @ common_head firstLoc secondLoc;
          end = (if endswith regexp ''*''
                 then common_tail (rev firstLoc) (rev secondLoc) []
                 else [])
      in regexp @ end @ ''$'')"

text \<open>
  \<^verbatim>\<open>Scanner.__init__\<close> sets the fields and calls \<^verbatim>\<open>setup\<close>, here
  \<open>Scanner_setup\<close> because \<open>setup\<close> is a keyword of Isabelle. The
  requester answers a path with a response or raises; the two values of
  \<^verbatim>\<open>RandomUtils.randString()\<close> and the constructor of the body comparator,
  taken to return, are parameters.
\<close>

definition Scanner_fields :: "string option \<Rightarrow> string option \<Rightarrow> string option \<Rightarrow> scanner" where
  "Scanner_fields cal suf pre =
     \<lparr>calibration = cal,
      suffix_str = (if truthy suf then the suf else []),
      prefix_str = (if truthy pre then the pre else []),
      redirectRegExp = None, invalidStatus = None, dynamicParser = None,
      ratio = fl (98 / 100)\<rparr>"

definition probe_path :: "scanner \<Rightarrow> string \<Rightarrow> string" where
  "probe_path self rand =
     prefix_str self @ (if truthy (calibration self) then the (calibration self) else rand)
       @ suffix_str self"

definition Scanner_setup ::
  "(string \<Rightarrow> exn + response) \<Rightarrow> (string \<Rightarrow> string \<Rightarrow> string \<Rightarrow> parser) \<Rightarrow>
   string \<Rightarrow> string \<Rightarrow> scanner \<Rightarrow> exn + scanner" where
  "Scanner_setup request mkParser rand1 rand2 self =
     (let firstPath = probe_path self rand1 in
      case request firstPath of
        Inl e \<Rightarrow> Inl e
      | Inr firstResponse \<Rightarrow>
         (let self = self\<lparr>invalidStatus := Some (status firstResponse)\<rparr> in
          if status firstResponse = 404 then Inr self
          else
           (let secondPath = probe_path self rand2 in
            case request secondPath of
              Inl e \<Rightarrow> Inl e
            | Inr secondResponse \<Rightarrow>
               (let self =
                      (if truthy (redirect firstResponse) \<and> truthy (redirect secondResponse)
                       then self\<lparr>redirectRegExp :=
                              Some (generateRedirectRegExp
                                      (the (redirect firstResponse)) firstPath
                                      (the (redirect secondResponse)) secondPath)\<rparr>
                       else self);
                    self =
                      (case body firstResponse of
                         None \<Rightarrow> self\<lparr>dynamicParser := None\<rparr>
                       | Some b1 \<Rightarrow>
                          (case body secondResponse of
                             None \<Rightarrow> self\<lparr>dynamicParser := None\<rparr>
                           | Some b2 \<Rightarrow>
                               self\<lparr>dynamicParser := Some (mkParser firstPath b1 b2)\<rparr>))
                in (case dynamicParser self of
                      None \<Rightarrow> Inl AttributeError
                    | Some p \<Rightarrow>
                       (let baseRatio = fl (round2 (fl (comparisonRatio p)));
                            baseRatio = (if len firstResponse < 2000
                                         then fl (baseRatio - fl (1 / 10))
                                         else baseRatio)
                        in Inr (if baseRatio < ratio self
                                then self\<lparr>ratio := baseRatio\<rparr> else self)))))))"

definition Scanner ::
  "(string \<Rightarrow> exn + response) \<Rightarrow> (string \<Rightarrow> string \<Rightarrow> string \<Rightarrow> parser) \<Rightarrow>
   string \<Rightarrow> string \<Rightarrow> string option \<Rightarrow> string option \<Rightarrow> string option \<Rightarrow> exn + scanner" where
  "Scanner request mkParser rand1 rand2 cal suf pre =
     Scanner_setup request mkParser rand1 rand2 (Scanner_fields cal suf pre)"

text \<open>
  \<^verbatim>\<open>scan\<close>. The regular-expression matcher is a parameter. \<open>checked\<close> says
  that the redirect branch was entered, which is what
  \<^verbatim>\<open>"redirectToInvalid" in locals()\<close> tests further down.
\<close>

definition scan ::
  "(string \<Rightarrow> string \<Rightarrow> bool) \<Rightarrow> scanner \<Rightarrow> string \<Rightarrow> response \<Rightarrow> exn + bool" where
  "scan matcher self path response =
     (if invalidStatus self = Some (status response) \<and> status response = 404 then Inr False
      else if invalidStatus self \<noteq> Some (status response) then Inr True
      else
        let checked = (truthy (redirectRegExp self) \<and> truthy (redirect response)) in
        if checked \<and>
           \<not> matcher (py_replace (the (redirectRegExp self)) ''DIRSEARCH_PATH'' (re_escape path))
                      (the (redirect response))
        then Inr True
        else
          (case dynamicParser self of
             None \<Rightarrow> Inl AttributeError
           | Some p \<Rightarrow>
               let r = fl (compareTo p (body response)) in
               if ratio self \<le> r then Inr False
               else if checked \<and> fl (ratio self - fl (15 / 100)) \<le> r then Inr False
               else Inr True))"

section \<open>Controller (\<^verbatim>\<open>lib/controller/controller.py\<close>)\<close>

text \<open>
  The functions of the standard library and of \<^verbatim>\<open>lib.utils\<close> that the
  controller calls: \<^verbatim>\<open>re.search\<close> and \<^verbatim>\<open>re.match\<close> (true when the
  result is not \<^verbatim>\<open>None\<close>), \<^verbatim>\<open>FileUtils.size_human\<close> followed by
  \<^verbatim>\<open>strip\<close>, and \<^verbatim>\<open>urllib.parse.urljoin\<close>.
\<close>

record env =
  re_search :: "string \<Rightarrow> string \<Rightarrow> bool"
  re_matches :: "string \<Rightarrow> string \<Rightarrow> bool"
  size_human :: "nat \<Rightarrow> string"
  urljoin :: "string \<Rightarrow> string \<Rightarrow> string"

text \<open>
  A result handed to the callbacks by the prober: \<^verbatim>\<open>path.path\<close>,
  \<^verbatim>\<open>path.status\<close> and \<^verbatim>\<open>path.response\<close>.
\<close>

record fuzz_path =
  p_path :: string
  p_status :: int
  p_response :: response

text \<open>
  The fields of the controller that the queue, the recursion and the match
  callback read or write. \<^verbatim>\<open>directories\<close> is the FIFO queue, oldest entry
  first. Options that are a number or \<^verbatim>\<open>None\<close> are numbers, 0 standing
  for both false values. The calls to the output, the replay request and
  the report are logged in \<open>shown\<close>, \<open>replayed\<close> and \<open>reported\<close>.
\<close>

record controller =
  directories :: "string list"
  doneDirs :: "string list"
  scanSubdirs :: "string list"
  excludeSubdirs :: "string list"
  recursive :: bool
  deep_recursive :: bool
  force_recursive :: bool
  recursion_depth :: int
  recursionStatusCodes :: "int list"
  skip_on_status :: "int list"
  includeStatusCodes :: "int list"
  excludeStatusCodes :: "int list"
  blacklists :: "int \<Rightarrow> string list option"
  excludeSizes :: "string list"
  minimumResponseSize :: nat
  maximumResponseSize :: nat
  excludeTexts :: "string list"
  excludeRegexps :: "string list"
  excludeRedirects :: "string list"
  replay_proxy :: "string option"
  maxtime :: nat
  requester_baseUrl :: string
  basePath :: string
  currentDirectory :: string
  allJobs :: nat
  currentJob :: nat
  index :: nat
  status_skip :: "int option"
  shown :: "(string \<times> bool) list"
  replayed :: "string list"
  reported :: "(string \<times> int) list"
  completed :: bool

text \<open>
  \<^verbatim>\<open>__init__\<close>, lines 150 and 217 to 225: the job count, and for each target
  the reset of the skip signal and the seeding of the queue. The
  \<^verbatim>\<open>else\<close> belongs to the \<^verbatim>\<open>for\<close>, whose body has no \<^verbatim>\<open>break\<close>, so it
  runs when the loop is over.
\<close>

definition initial_allJobs :: "string list \<Rightarrow> nat" where
  "initial_allJobs subdirs = (if subdirs \<noteq> [] then length subdirs else 1)"

definition seed_queue :: "controller \<Rightarrow> controller" where
  "seed_queue self =
     (let self = self\<lparr>status_skip := None\<rparr>;
          self = fold (\<lambda>subdir s. s\<lparr>directories := directories s @ [subdir]\<rparr>)
                   (scanSubdirs self) self
      in self\<lparr>directories := directories self @ [[]]\<rparr>)"

text \<open>
  \<^verbatim>\<open>addDirectory\<close>, lines 610 to 628: the path without query and
  fragment, the exclusion test, and the list \<^verbatim>\<open>dirs\<close>.
\<close>

definition strip_query :: "string \<Rightarrow> string" where
  "strip_query path = hd (py_split (hd (py_split path CHR ''?'')) CHR ''#'')"

definition excluded :: "controller \<Rightarrow> string \<Rightarrow> bool" where
  "excluded self path = list_ex (\<lambda>directory. startswith path directory) (excludeSubdirs self)"

definition deep_dirs :: "string \<Rightarrow> string \<Rightarrow> string list" where
  "deep_dirs fullPath path =
     map (\<lambda>i. py_rstrip (py_replace fullPath path [] @
                          py_join ''/'' (take i (py_split path CHR ''/''))) CHR ''/'' @ ''/'')
         [1 ..< py_count path CHR ''/'' + 1]"

definition candidate_dirs :: "controller \<Rightarrow> string \<Rightarrow> string list" where
  "candidate_dirs self path =
     (let fullPath = currentDirectory self @ path;
          dirs = (if deep_recursive self then deep_dirs fullPath path else [])
      in if force_recursive self then
           dirs @ [if endswith fullPath ''/'' then fullPath else fullPath @ ''/'']
         else if recursive self \<and> endswith fullPath ''/'' then dirs @ [fullPath]
         else dirs)"

text \<open>Lines 630 to 644: the loop over \<^verbatim>\<open>dirs\<close>, with the flag \<^verbatim>\<open>added\<close>.\<close>

fun enqueue_dirs :: "string list \<Rightarrow> bool \<times> controller \<Rightarrow> bool \<times> controller" where
  "enqueue_dirs [] (added, self) = (added, self)"
| "enqueue_dirs (dir # dirs) (added, self) =
     (if dir \<in> set (scanSubdirs self) then enqueue_dirs dirs (added, self)
      else if dir \<in> set (doneDirs self) then enqueue_dirs dirs (added, self)
      else if recursion_depth self \<noteq> 0 \<and> recursion_depth self < int (py_count dir CHR ''/'')
        then enqueue_dirs dirs (added, self)
      else enqueue_dirs dirs
             (True, self\<lparr>directories := directories self @ [dir],
                         doneDirs := doneDirs self @ [dir],
                         allJobs := allJobs self + 1\<rparr>))"

definition addDirectory :: "controller \<Rightarrow> string \<Rightarrow> bool \<times> controller" where
  "addDirectory self path =
     (let path = strip_query path in
      if excluded self path then (False, self)
      else enqueue_dirs (candidate_dirs self path) (False, self))"

text \<open>\<^verbatim>\<open>addPort\<close>; \<^verbatim>\<open>chunks[2]\<close> raises when the URL has fewer than two slashes.\<close>

definition addPort :: "string \<Rightarrow> exn + string" where
  "addPort url =
     (let chunks = py_split url CHR ''/'' in
      if length chunks < 3 then Inl IndexError
      else if CHR '':'' \<notin> set (chunks ! 2) then
        Inr (py_join ''/''
               (chunks[2 := chunks ! 2 @ (if chunks ! 0 = ''http:'' then '':80'' else '':443'')]))
      else Inr url)"

definition addRedirectDirectory :: "env \<Rightarrow> controller \<Rightarrow> fuzz_path \<Rightarrow> exn + bool \<times> controller" where
  "addRedirectDirectory e self path =
     (let baseUrl = requester_baseUrl self @ basePath self @ currentDirectory self @ p_path path;
          redirectUrl = (case redirect (p_response path) of
                           None \<Rightarrow> requester_baseUrl self
                         | Some loc \<Rightarrow> urljoin e (requester_baseUrl self) loc)
      in case addPort redirectUrl of
           Inl err \<Rightarrow> Inl err
         | Inr redirectUrl \<Rightarrow>
             if startswith redirectUrl (baseUrl @ ''/'') then
               Inr (addDirectory self
                      (py_replace redirectUrl
                         (requester_baseUrl self @ basePath self @ currentDirectory self) []))
             else Inr (False, self))"

text \<open>
  \<^verbatim>\<open>matchCallback\<close>, lines 426 to 438: the tests on status, blacklist and
  size, in the order of the source; \<^verbatim>\<open>len\<close> of a missing body raises.
\<close>

definition status_size_ok :: "env \<Rightarrow> controller \<Rightarrow> fuzz_path \<Rightarrow> exn + bool" where
  "status_size_ok e self path =
     (let st = p_status path; resp = p_response path in
      if \<not> (st \<noteq> 0 \<and> st \<notin> set (excludeStatusCodes self)) then Inr False
      else if \<not> (includeStatusCodes self = [] \<or> st \<in> set (includeStatusCodes self)) then Inr False
      else if \<not> (case blacklists self st of
                    None \<Rightarrow> True
                  | Some bl \<Rightarrow> bl = [] \<or> p_path path \<notin> set bl) then Inr False
      else if excludeSizes self \<noteq> [] \<and> body resp = None then Inl TypeError
      else if \<not> (excludeSizes self = [] \<or>
                  size_human e (length (the (body resp))) \<notin> set (excludeSizes self)) then Inr False
      else if minimumResponseSize self \<noteq> 0 \<and> body resp = None then Inl TypeError
      else if \<not> (minimumResponseSize self = 0 \<or>
                  minimumResponseSize self < length (the (body resp))) then Inr False
      else if maximumResponseSize self \<noteq> 0 \<and> body resp = None then Inl TypeError
      else Inr (maximumResponseSize self = 0 \<or>
                length (the (body resp)) < maximumResponseSize self))"

text \<open>
  Lines 440 to 463: the three loops over excluded texts, regular expressions
  and redirects; the result is true when one of them returns. Decoding a
  missing body raises.
\<close>

definition excluded_content :: "env \<Rightarrow> controller \<Rightarrow> fuzz_path \<Rightarrow> exn + bool" where
  "excluded_content e self path =
     (let resp = p_response path in
      if excludeTexts self \<noteq> [] \<and> body resp = None then Inl AttributeError
      else if list_ex (\<lambda>excludeText. py_contains excludeText (the (body resp)))
                (excludeTexts self) then Inr True
      else if excludeRegexps self \<noteq> [] \<and> body resp = None then Inl AttributeError
      else if list_ex (\<lambda>excludeRegexp. re_search e excludeRegexp (the (body resp)))
                (excludeRegexps self) then Inr True
      else Inr (list_ex (\<lambda>excludeRedirect.
                   truthy (redirect resp) \<and>
                   (re_matches e excludeRedirect (the (redirect resp)) \<or>
                    py_contains excludeRedirect (the (redirect resp))))
                 (excludeRedirects self)))"

text \<open>Lines 465 to 475: the recursion step and its flag \<^verbatim>\<open>addedToQueue\<close>.\<close>

definition recurse :: "env \<Rightarrow> controller \<Rightarrow> fuzz_path \<Rightarrow> exn + bool \<times> controller" where
  "recurse e self path =
     (if (recursive self \<or> deep_recursive self \<or> force_recursive self) \<and>
         (recursionStatusCodes self = [] \<or> p_status path \<in> set (recursionStatusCodes self))
      then (if truthy (redirect (p_response path)) then addRedirectDirectory e self path
            else Inr (addDirectory self (p_path path)))
      else Inr (False, self))"

text \<open>Lines 477 to 487: the status line, the replay and the report entry.\<close>

definition report_finding :: "fuzz_path \<Rightarrow> bool \<times> controller \<Rightarrow> controller" where
  "report_finding path r =
     (case r of (addedToQueue, self) \<Rightarrow>
        self\<lparr>shown := shown self @ [(p_path path, addedToQueue)],
             replayed := (if truthy (replay_proxy self) then replayed self @ [p_path path]
                          else replayed self),
             reported := reported self @ [(currentDirectory self @ p_path path, p_status path)]\<rparr>)"

text \<open>
  \<^verbatim>\<open>matchCallback\<close> gives the exception it raised, if any, and the
  controller as it leaves it: the count of results is already incremented
  when one of the tests or \<^verbatim>\<open>addPort\<close> raises.
\<close>

definition matchCallback :: "env \<Rightarrow> controller \<Rightarrow> fuzz_path \<Rightarrow> exn option \<times> controller" where
  "matchCallback e self path =
     (let self = self\<lparr>index := index self + 1\<rparr> in
      if p_status path \<in> set (skip_on_status self)
      then (None, self\<lparr>status_skip := Some (p_status path)\<rparr>)
      else (case status_size_ok e self path of
              Inl err \<Rightarrow> (Some err, self)
            | Inr ok \<Rightarrow>
                if \<not> ok then (None, self)
                else (case excluded_content e self path of
                        Inl err \<Rightarrow> (Some err, self)
                      | Inr hit \<Rightarrow>
                          if hit then (None, self)
                          else (case recurse e self path of
                                  Inl err \<Rightarrow> (Some err, self)
                                | Inr r \<Rightarrow> (None, report_finding path r)))))"

text \<open>
  \<^verbatim>\<open>processPaths\<close> without operator interrupts. What the prober does while
  the loop runs is a list of events: a result whose match callback a worker
  runs, or a poll, that is one return of \<^verbatim>\<open>fuzzer.wait(0.25)\<close> with the
  running time at that moment and whether the busy wait for the stopped
  workers ends. An exception raised in a callback stays in the worker and
  the loop goes on with the controller as the callback left it. The other
  callbacks, for a path not found and for a transport error, write neither
  the skip signal nor the queue and are not among the events. The loop
  returns, raises, spins in the busy wait for ever, or is still polling when
  the events are used up.
\<close>

record poll =
  finished :: bool
  runtime :: nat
  workers_stop :: bool

datatype event = Result fuzz_path | Poll poll

datatype outcome = Returned controller | Raised exn | Spinning | Pending controller

fun processPaths :: "env \<Rightarrow> event list \<Rightarrow> controller \<Rightarrow> outcome" where
  "processPaths e [] self = Pending self"
| "processPaths e (Result path # events) self =
     processPaths e events (snd (matchCallback e self path))"
| "processPaths e (Poll w # events) self =
     (if finished w then Returned self
      else if status_skip self \<noteq> None \<and> status_skip self \<noteq> Some 0 then
        (if workers_stop w then Raised SkipTargetInterrupt else Spinning)
      else if maxtime self \<noteq> 0 \<and> maxtime self < runtime w then Raised (SystemExit 0)
      else processPaths e events self)"

text \<open>
  \<^verbatim>\<open>prepare\<close>: one list of events for each job taken from the queue.
  \<open>job_start\<close> is the controller when the prober is started on the job.
\<close>

definition job_start :: "controller \<Rightarrow> string \<Rightarrow> string list \<Rightarrow> controller" where
  "job_start self dir queue =
     self\<lparr>currentJob := currentJob self + 1, index := 0,
          currentDirectory := dir, directories := queue\<rparr>"

fun prepare :: "env \<Rightarrow> event list list \<Rightarrow> controller \<Rightarrow> outcome" where
  "prepare e [] self =
     (if directories self = [] then Returned (self\<lparr>completed := True\<rparr>) else Pending self)"
| "prepare e (events # rest) self =
     (case directories self of
        [] \<Rightarrow> Returned (self\<lparr>completed := True\<rparr>)
      | dir # queue \<Rightarrow>
          (case processPaths e events (job_start self dir queue) of
             Returned self \<Rightarrow> prepare e rest self
           | Raised err \<Rightarrow> Raised err
           | Spinning \<Rightarrow> Spinning
           | Pending self \<Rightarrow> Pending self))"

text \<open>The controller after the match callbacks of a list of results.\<close>

definition deliver :: "env \<Rightarrow> fuzz_path list \<Rightarrow> controller \<Rightarrow> controller" where
  "deliver e results self = fold (\<lambda>path s. snd (matchCallback e s path)) results self"

section \<open>Configurations and inputs used in the examples\<close>

definition static_page :: response where
  "static_page = \<lparr>status = 200, body = Some ''soft 404'', redirect = None, len = 8\<rparr>"

definition same_parser :: "string \<Rightarrow> string \<Rightarrow> string \<Rightarrow> parser" where
  "same_parser path b1 b2 =
     \<lparr>comparisonRatio = (if b1 = b2 then 1 else 0),
      compareTo = (\<lambda>b. if b = Some b1 then 1 else 0)\<rparr>"

text \<open>
  A controller with every option off and nothing queued; the examples switch
  single options on. The library functions of the examples: the model of
  \<^verbatim>\<open>re.match\<close> above, no size token, and \<^verbatim>\<open>urljoin\<close> on absolute
  locations, which it returns as they are.
\<close>

definition plain_controller :: controller where
  "plain_controller =
     \<lparr>directories = [], doneDirs = [], scanSubdirs = [], excludeSubdirs = [],
      recursive = False, deep_recursive = False, force_recursive = False,
      recursion_depth = 0, recursionStatusCodes = [], skip_on_status = [],
      includeStatusCodes = [], excludeStatusCodes = [], blacklists = (\<lambda>st. None),
      excludeSizes = [], minimumResponseSize = 0, maximumResponseSize = 0,
      excludeTexts = [], excludeRegexps = [], excludeRedirects = [],
      replay_proxy = None, maxtime = 0,
      requester_baseUrl = ''http://example.com:80'', basePath = ''/'',
      currentDirectory = [], allJobs = 1, currentJob = 0, index = 0,
      status_skip = None, shown = [], replayed = [], reported = [], completed = False\<rparr>"

definition example_env :: env where
  "example_env =
     \<lparr>re_search = (\<lambda>pat s. False),
      re_matches = (\<lambda>pat s. re_match pat s = Some True),
      size_human = (\<lambda>n. []),
      urljoin = (\<lambda>base loc. loc)\<rparr>"

definition no_body_page :: response where
  "no_body_page = \<lparr>status = 200, body = None, redirect = None, len = 0\<rparr>"

text \<open>
  A scanner calibrated on a server that answers unknown paths with status 302
  and the location \<^verbatim>\<open>/login\<close>; its comparator rates every body 0.9.
  The second scanner has the threshold 0.56 and a comparator that rates
  every body 0.41.
\<close>

definition redirect_scanner :: scanner where
  "redirect_scanner =
     \<lparr>calibration = None, suffix_str = [], prefix_str = [],
      redirectRegExp = Some ''^/login$'', invalidStatus = Some 302,
      dynamicParser = Some \<lparr>comparisonRatio = 1, compareTo = (\<lambda>b. 9 / 10)\<rparr>,
      ratio = fl (98 / 100)\<rparr>"

definition boundary_scanner :: scanner where
  "boundary_scanner =
     redirect_scanner
       \<lparr>dynamicParser := Some \<lparr>comparisonRatio = 1, compareTo = (\<lambda>b. 41 / 100)\<rparr>,
        ratio := fl (56 / 100)\<rparr>"

definition model_matcher :: "string \<Rightarrow> string \<Rightarrow> bool" where
  "model_matcher pat s = (re_match pat s = Some True)"



definition limited_result :: fuzz_path where
  "limited_result =
     \<lparr>p_path = ''a'', p_status = 429,
      p_response = \<lparr>status = 429, body = Some [], redirect = None, len = 0\<rparr>\<rparr>"


definition plain_result :: fuzz_path where
  "plain_result =
     \<lparr>p_path = ''b'', p_status = 200,
      p_response = \<lparr>status = 200, body = Some [], redirect = None, len = 0\<rparr>\<rparr>"

section \<open>The queue after \<^verbatim>\<open>addDirectory\<close>\<close>

text \<open>
  A candidate the loop of \<^verbatim>\<open>addDirectory\<close> passes over, and the controller
  after the directories \<open>new\<close> have been put on the queue.
\<close>

definition skipped :: "controller \<Rightarrow> string \<Rightarrow> bool" where
  "skipped self dir =
     (dir \<in> set (scanSubdirs self) \<or> dir \<in> set (doneDirs self) \<or>
      (recursion_depth self \<noteq> 0 \<and> recursion_depth self < int (py_count dir CHR ''/'')))"

definition enqueued :: "controller \<Rightarrow> string list \<Rightarrow> controller" where
  "enqueued self new =
     self\<lparr>directories := directories self @ new, doneDirs := doneDirs self @ new,
          allJobs := allJobs self + length new\<rparr>"

text \<open>
  The outcome of \<^verbatim>\<open>addDirectory\<close> when, of the candidates \<open>dirs\<close>, exactly
  those that pass the three checks of its loop are put on the queue.
\<close>

definition accepted :: "controller \<Rightarrow> string list \<Rightarrow> bool \<times> controller" where
  "accepted self dirs =
     (let new = filter (\<lambda>dir. \<not> skipped self dir) dirs in (new \<noteq> [], enqueued self new))"

text \<open>The skip signal is set, as \<^verbatim>\<open>if self.status_skip\<close> tests it.\<close>

definition signalled :: "controller \<Rightarrow> bool" where
  "signalled self = (status_skip self \<noteq> None \<and> status_skip self \<noteq> Some 0)"

section \<open>Properties of the scanner\<close>

text \<open>
  C1. When calibration recorded the invalid status 404, \<^verbatim>\<open>scan\<close> returns
  normally and answers found exactly when the response status is not 404,
  whatever the path, the response body, the redirect location, the other
  fields of the scanner and the matcher are.
\<close>

theorem scan_404_iff_status:
  "invalidStatus self = Some 404 \<Longrightarrow>
   scan matcher self path response = Inr (status response \<noteq> 404)"
  by (simp add: scan_def)

theorem scan_404_iff_status_witness:
  "scan model_matcher (redirect_scanner\<lparr>invalidStatus := Some 404\<rparr>) ''admin''
        \<lparr>status = 200, body = Some ''x'', redirect = Some ''/login'', len = 1\<rparr>
   = Inr True"
  using scan_404_iff_status
    [of "redirect_scanner\<lparr>invalidStatus := Some 404\<rparr>" model_matcher "''admin''"
        "\<lparr>status = 200, body = Some ''x'', redirect = Some ''/login'', len = 1\<rparr>"]
  by simp

subsection \<open>Floats of the scanner\<close>

text \<open>
  The floats that occur in the examples: \<^verbatim>\<open>1.0 - 0.1\<close> is the double
  \<^verbatim>\<open>0.9\<close>, which is below \<^verbatim>\<open>0.98\<close>; \<^verbatim>\<open>0.98 - 0.15\<close> is not above
  \<^verbatim>\<open>0.9\<close>; and \<^verbatim>\<open>0.56 - 0.15\<close> is above the double \<^verbatim>\<open>0.41\<close>.
\<close>

lemma fl_one: "fl 1 = 1"
  by code_simp

lemma round2_one: "round2 1 = 1"
  by code_simp

lemma short_threshold:
  "fl (1 - fl (1 / 10)) = fl (9 / 10)"
  "fl (9 / 10) < fl (98 / 100)"
  "\<not> 1 < fl (98 / 100)"
  "fl (9 / 10) \<noteq> fl (88 / 100)"
  by code_simp+

lemma loose_threshold:
  "fl (fl (98 / 100) - fl (15 / 100)) \<le> fl (9 / 10)"
  "\<not> fl (98 / 100) \<le> fl (9 / 10)"
  "\<not> fl (56 / 100) \<le> fl (41 / 100)"
  "\<not> fl (fl (56 / 100) - fl (15 / 100)) \<le> fl (41 / 100)"
  by code_simp+

subsection \<open>The threshold derived by \<^verbatim>\<open>setup\<close>\<close>

lemma probe_path_invalidStatus [simp]:
  "probe_path (self\<lparr>invalidStatus := v\<rparr>) r = probe_path self r"
  by (simp add: probe_path_def)

text \<open>
  C2, as stated, fails for a short baseline: two identical responses of
  length 8 with status 200 give the threshold 0.9, not 0.88. The 0.1 is
  taken from the rounded baseline ratio 1.0, and the result 0.9 replaces the
  initial 0.98 because it is smaller.
\<close>

theorem setup_threshold_short_counterexample:
  "map_sum id ratio (Scanner (\<lambda>p. Inr static_page) same_parser ''aaaa'' ''bbbb'' None None None)
     = Inr (fl (90 / 100))
   \<and> map_sum id ratio (Scanner (\<lambda>p. Inr static_page) same_parser ''aaaa'' ''bbbb'' None None None)
     \<noteq> Inr (fl (88 / 100))"
proof -
  have "Scanner (\<lambda>p. Inr static_page) same_parser ''aaaa'' ''bbbb'' None None None
      = Inr ((Scanner_fields None None None)
               \<lparr>invalidStatus := Some 200,
                dynamicParser := Some (same_parser ''aaaa'' ''soft 404'' ''soft 404''),
                ratio := fl (1 - fl (1 / 10))\<rparr>)"
    using short_threshold(1,2)
    by (simp add: Scanner_def Scanner_setup_def Let_def static_page_def probe_path_def
        Scanner_fields_def same_parser_def fl_one round2_one)
  then show ?thesis
    using short_threshold by simp
qed

text \<open>
  C2, amended. For two baseline responses with a status other than 404, the
  same body and a measured baseline ratio of 1, \<^verbatim>\<open>setup\<close> returns a
  scanner whose threshold is the float 0.98 when the length of the first
  response is at least 2000, and the float 0.90 when it is shorter.
\<close>

theorem setup_threshold_identical:
  assumes "request (probe_path (Scanner_fields cal suf pre) rand1) = Inr first"
    and "status first \<noteq> 404"
    and "request (probe_path (Scanner_fields cal suf pre) rand2) = Inr second"
    and "body first = Some b" and "body second = Some b"
    and "comparisonRatio (mkParser (probe_path (Scanner_fields cal suf pre) rand1) b b) = 1"
  shows "\<exists>s. Scanner request mkParser rand1 rand2 cal suf pre = Inr s \<and>
             ratio s = (if 2000 \<le> len first then fl (98 / 100) else fl (90 / 100))"
proof -
  have r: "ratio (Scanner_fields cal suf pre) = fl (98 / 100)"
    by (simp add: Scanner_fields_def)
  have nine: "fl (90 / 100) = fl (1 - fl (1 / 10))"
    using short_threshold(1) by simp
  show ?thesis
    unfolding nine
    using assms short_threshold(2,3)
    by (simp add: Scanner_def Scanner_setup_def Let_def round2_one fl_one r short_threshold(1))
qed

theorem setup_threshold_identical_witness:
  "\<exists>s. Scanner (\<lambda>p. Inr static_page) same_parser ''aaaa'' ''bbbb'' None None None = Inr s \<and>
       ratio s = fl (90 / 100)"
  using setup_threshold_identical
    [of "\<lambda>p. Inr static_page" None None None "''aaaa''" static_page "''bbbb''" static_page
        "''soft 404''" same_parser]
  by (simp add: static_page_def same_parser_def)

subsection \<open>The decision of \<^verbatim>\<open>scan\<close> when the status is the invalid one\<close>

lemma re_match_login:
  "re_match ''^/login$'' ''/login'' = Some True"
  "re_match ''^/login$'' ''/admin/'' = Some False"
  by (simp_all add: re_match_def meta_chars_def)

lemma replace_no_placeholder:
  "py_replace ''^/login$'' ''DIRSEARCH_PATH'' new = ''^/login$''"
  by (simp add: py_replace_def startswith_def)

text \<open>
  C3, as stated, fails: the calibrated pattern is \<^verbatim>\<open>^/login$\<close>, the response
  has the invalid status 302 and redirects to \<^verbatim>\<open>/admin/\<close>, which the
  pattern does not match, and the comparator's ratio 0.9 is at least
  0.98 - 0.15; the result is found.
\<close>

theorem scan_redirect_mismatch_counterexample:
  "scan model_matcher redirect_scanner ''admin''
        \<lparr>status = 302, body = Some [], redirect = Some ''/admin/'', len = 0\<rparr>
     = Inr True
   \<and> \<not> model_matcher (py_replace ''^/login$'' ''DIRSEARCH_PATH'' (re_escape ''admin'')) ''/admin/''
   \<and> fl (ratio redirect_scanner - fl (15 / 100))
        \<le> fl (compareTo (the (dynamicParser redirect_scanner)) (Some []))"
proof -
  have "scan model_matcher redirect_scanner ''admin''
        \<lparr>status = 302, body = Some [], redirect = Some ''/admin/'', len = 0\<rparr> = Inr True"
    by (simp add: scan_def redirect_scanner_def model_matcher_def replace_no_placeholder
        re_match_login)
  moreover have
    "\<not> model_matcher (py_replace ''^/login$'' ''DIRSEARCH_PATH'' (re_escape ''admin'')) ''/admin/''"
    by (simp add: model_matcher_def replace_no_placeholder re_match_login)
  moreover have "fl (ratio redirect_scanner - fl (15 / 100))
        \<le> fl (compareTo (the (dynamicParser redirect_scanner)) (Some []))"
    unfolding redirect_scanner_def using loose_threshold(1) by simp
  ultimately show ?thesis by blast
qed

text \<open>
  C3, amended. When the response status equals an invalid status other than
  404 and the scanner has a body comparator: if a redirect pattern exists and
  the response redirects, the result is found when the location fails to
  match the pattern with the path substituted, whatever the ratio, and when
  it matches, the result is not found exactly if the ratio is at least the
  threshold or at least the float \<^verbatim>\<open>self.ratio - 0.15\<close>; if no redirect
  check is made, the result is not found exactly if the ratio is at least
  the threshold. So the looser tolerance applies only when the redirect
  check was made and the location matched.
\<close>

theorem scan_same_status:
  assumes "invalidStatus self = Some (status response)"
    and "status response \<noteq> 404"
    and "dynamicParser self = Some p"
  shows "scan matcher self path response =
     Inr (if truthy (redirectRegExp self) \<and> truthy (redirect response)
          then (matcher (py_replace (the (redirectRegExp self)) ''DIRSEARCH_PATH'' (re_escape path))
                        (the (redirect response))
                \<longrightarrow> fl (compareTo p (body response)) < ratio self \<and>
                    fl (compareTo p (body response)) < fl (ratio self - fl (15 / 100)))
          else fl (compareTo p (body response)) < ratio self)"
  using assms by (auto simp: scan_def Let_def)

theorem scan_same_status_witness:
  "scan model_matcher redirect_scanner ''admin''
        \<lparr>status = 302, body = Some [], redirect = Some ''/login'', len = 0\<rparr>
     = Inr False
   \<and> scan model_matcher (redirect_scanner\<lparr>redirectRegExp := None\<rparr>) ''admin''
        \<lparr>status = 302, body = Some [], redirect = Some ''/login'', len = 0\<rparr>
     = Inr True"
proof -
  have m: "model_matcher (py_replace ''^/login$'' ''DIRSEARCH_PATH'' (re_escape ''admin'')) ''/login''"
    by (simp add: model_matcher_def replace_no_placeholder re_match_login)
  have "scan model_matcher redirect_scanner ''admin''
        \<lparr>status = 302, body = Some [], redirect = Some ''/login'', len = 0\<rparr> = Inr False"
    using scan_same_status
      [of redirect_scanner "\<lparr>status = 302, body = Some [], redirect = Some ''/login'', len = 0\<rparr>"
          "\<lparr>comparisonRatio = 1, compareTo = (\<lambda>b. 9 / 10)\<rparr>" model_matcher "''admin''"]
      m loose_threshold(1,2)
    by (simp add: redirect_scanner_def)
  moreover have "scan model_matcher (redirect_scanner\<lparr>redirectRegExp := None\<rparr>) ''admin''
        \<lparr>status = 302, body = Some [], redirect = Some ''/login'', len = 0\<rparr> = Inr True"
    using scan_same_status
      [of "redirect_scanner\<lparr>redirectRegExp := None\<rparr>"
          "\<lparr>status = 302, body = Some [], redirect = Some ''/login'', len = 0\<rparr>"
          "\<lparr>comparisonRatio = 1, compareTo = (\<lambda>b. 9 / 10)\<rparr>" model_matcher "''admin''"]
      loose_threshold(2)
    by (simp add: redirect_scanner_def)
  ultimately show ?thesis by blast
qed

text \<open>
  The difference is the rounded one: with the threshold 0.56 and a matching
  redirect, a body rated 0.41 is found, because the float
  \<^verbatim>\<open>0.56 - 0.15\<close> is above the float \<^verbatim>\<open>0.41\<close>.
\<close>

lemma scan_rounded_difference:
  "scan model_matcher boundary_scanner ''admin''
        \<lparr>status = 302, body = Some [], redirect = Some ''/login'', len = 0\<rparr>
     = Inr True"
proof -
  have m: "model_matcher (py_replace ''^/login$'' ''DIRSEARCH_PATH'' (re_escape ''admin'')) ''/login''"
    by (simp add: model_matcher_def replace_no_placeholder re_match_login)
  show ?thesis
    using m loose_threshold(3,4)
    by (simp add: scan_def boundary_scanner_def redirect_scanner_def)
qed

subsection \<open>The generalised redirect pattern\<close>

lemma re_escape_Cons: "re_escape (c # p) = escape_chr c @ re_escape p"
  by (simp add: re_escape_def)

lemma re_parse_plain:
  assumes "c \<notin> set special_chars"
  shows "re_parse (c # r) = map_option (\<lambda>ts. Lit c # ts) (re_parse r)"
proof -
  from assms have ne: "c \<noteq> CHR 0x5C" "c \<noteq> CHR ''.''" "c \<noteq> CHR ''^''" "c \<noteq> CHR ''$''"
    "c \<notin> set meta_chars"
    by (auto simp: special_chars_def meta_chars_def)
  show ?thesis
  proof (cases r)
    case Nil
    with ne show ?thesis by simp
  next
    case (Cons d ds)
    with ne show ?thesis by simp
  qed
qed

lemma re_parse_escaped:
  assumes "c \<in> set special_chars"
  shows "re_parse (CHR 0x5C # c # r) = map_option (\<lambda>ts. Lit c # ts) (re_parse r)"
proof -
  from assms have "\<not> alnum c" by (auto simp: special_chars_def alnum_def)
  then show ?thesis by simp
qed

lemma re_parse_Bol: "re_parse (CHR ''^'' # r) = map_option (\<lambda>ts. Bol # ts) (re_parse r)"
  by (cases r) simp_all

text \<open>An escaped string is read back as the literals of the string.\<close>

lemma re_parse_escape:
  "re_parse (re_escape p @ r) = map_option (\<lambda>ts. map Lit p @ ts) (re_parse r)"
proof (induction p)
  case Nil
  then show ?case by (simp add: re_escape_def option.map_ident)
next
  case (Cons c p)
  show ?case
  proof (cases "c \<in> set special_chars")
    case True
    then have "re_parse (re_escape (c # p) @ r) = re_parse (CHR 0x5C # c # (re_escape p @ r))"
      by (simp add: re_escape_Cons escape_chr_def)
    also have "\<dots> = map_option (\<lambda>ts. Lit c # ts) (re_parse (re_escape p @ r))"
      using True by (rule re_parse_escaped)
    finally show ?thesis by (simp add: Cons.IH option.map_comp comp_def)
  next
    case False
    then have "re_parse (re_escape (c # p) @ r) = re_parse (c # (re_escape p @ r))"
      by (simp add: re_escape_Cons escape_chr_def)
    also have "\<dots> = map_option (\<lambda>ts. Lit c # ts) (re_parse (re_escape p @ r))"
      using False by (rule re_parse_plain)
    finally show ?thesis by (simp add: Cons.IH option.map_comp comp_def)
  qed
qed

lemma matches_literals:
  "matches st (map Lit p @ ts) (p @ s) = matches (st \<and> p = []) ts s"
  by (induction p arbitrary: st) auto

lemma login_pattern:
  "generateRedirectRegExp ''/x/aaaa/login'' ''aaaa'' ''/x/bbbb/login'' ''bbbb''
     = ''^/x/DIRSEARCH_PATH/login$''"
  by (simp add: generateRedirectRegExp_def py_replace_def startswith_def endswith_def
      re_escape_def escape_chr_def special_chars_def Let_def suffix_def)

lemma login_pattern_substituted:
  "py_replace ''^/x/DIRSEARCH_PATH/login$'' ''DIRSEARCH_PATH'' new = ''^/x/'' @ new @ ''/login$''"
  by (simp add: py_replace_def startswith_def)

text \<open>
  C4. The pattern generalised from the baseline locations
  \<^verbatim>\<open>/x/aaaa/login\<close> (probe \<^verbatim>\<open>aaaa\<close>) and \<^verbatim>\<open>/x/bbbb/login\<close> (probe
  \<^verbatim>\<open>bbbb\<close>), with the escaped probed path put in place of the placeholder
  as \<^verbatim>\<open>scan\<close> does, matches \<^verbatim>\<open>/x/p/login\<close> and does not match
  \<^verbatim>\<open>/x/p/admin\<close>, for every probed path \<open>p\<close>.
\<close>

theorem redirect_pattern_generalises:
  "re_match (py_replace (generateRedirectRegExp ''/x/aaaa/login'' ''aaaa'' ''/x/bbbb/login'' ''bbbb'')
               ''DIRSEARCH_PATH'' (re_escape p)) (''/x/'' @ p @ ''/login'') = Some True
   \<and> re_match (py_replace (generateRedirectRegExp ''/x/aaaa/login'' ''aaaa'' ''/x/bbbb/login'' ''bbbb'')
               ''DIRSEARCH_PATH'' (re_escape p)) (''/x/'' @ p @ ''/admin'') = Some False"
proof -
  have "re_parse ''/login$'' =
      Some [Lit CHR ''/'', Lit CHR ''l'', Lit CHR ''o'', Lit CHR ''g'', Lit CHR ''i'',
            Lit CHR ''n'', Eol]"
    by (simp add: meta_chars_def)
  then have "re_parse (re_escape p @ ''/login$'') =
      Some (map Lit p @ [Lit CHR ''/'', Lit CHR ''l'', Lit CHR ''o'', Lit CHR ''g'',
                         Lit CHR ''i'', Lit CHR ''n'', Eol])"
    by (simp only: re_parse_escape option.map)
  then have pat: "re_parse (''^/x/'' @ re_escape p @ ''/login$'') =
      Some ([Bol, Lit CHR ''/'', Lit CHR ''x'', Lit CHR ''/''] @ map Lit p @
            [Lit CHR ''/'', Lit CHR ''l'', Lit CHR ''o'', Lit CHR ''g'', Lit CHR ''i'',
             Lit CHR ''n'', Eol])"
    by (simp add: re_parse_Bol re_parse_plain special_chars_def meta_chars_def)
  have m: "re_match (''^/x/'' @ re_escape p @ ''/login$'') s =
      Some (matches True ([Bol, Lit CHR ''/'', Lit CHR ''x'', Lit CHR ''/''] @ map Lit p @
            [Lit CHR ''/'', Lit CHR ''l'', Lit CHR ''o'', Lit CHR ''g'', Lit CHR ''i'',
             Lit CHR ''n'', Eol]) s)" for s
    unfolding re_match_def pat by simp
  show ?thesis
    unfolding login_pattern login_pattern_substituted m by (simp add: matches_literals)
qed

theorem redirect_pattern_generalises_witness:
  "re_match (py_replace (generateRedirectRegExp ''/x/aaaa/login'' ''aaaa'' ''/x/bbbb/login'' ''bbbb'')
               ''DIRSEARCH_PATH'' (re_escape ''c.c'')) ''/x/c.c/login'' = Some True
   \<and> re_match (py_replace (generateRedirectRegExp ''/x/aaaa/login'' ''aaaa'' ''/x/bbbb/login'' ''bbbb'')
               ''DIRSEARCH_PATH'' (re_escape ''c.c'')) ''/x/c.c/admin'' = Some False"
  using redirect_pattern_generalises [of "''c.c''"] by simp

subsection \<open>Calibration without a body\<close>

text \<open>
  C10. When both probes are answered and the first status is not 404, a
  missing body in either answer makes \<^verbatim>\<open>setup\<close> raise the attribute error
  of the access to \<^verbatim>\<open>comparisonRatio\<close>. Whenever \<^verbatim>\<open>setup\<close> returns, the
  first probe was answered, and either its status was 404 or the second probe
  was answered, both bodies were present and the scanner returned has a body
  comparator.
\<close>

theorem setup_needs_both_bodies:
  "(request (probe_path self rand1) = Inr first \<and> status first \<noteq> 404 \<and>
    request (probe_path self rand2) = Inr second \<and>
    (body first = None \<or> body second = None)
      \<longrightarrow> Scanner_setup request mkParser rand1 rand2 self = Inl AttributeError)
   \<and> (Scanner_setup request mkParser rand1 rand2 self = Inr s
      \<longrightarrow> (\<exists>fr. request (probe_path self rand1) = Inr fr \<and>
             (status fr = 404 \<or>
              (\<exists>sr. request (probe_path self rand2) = Inr sr \<and>
                    body fr \<noteq> None \<and> body sr \<noteq> None \<and> dynamicParser s \<noteq> None))))"
  by (auto simp: Scanner_setup_def Let_def split: sum.splits option.splits if_splits)

theorem setup_needs_both_bodies_witness:
  "Scanner_setup (\<lambda>p. Inr no_body_page) same_parser ''aaaa'' ''bbbb''
       (Scanner_fields None None None) = Inl AttributeError"
  using setup_needs_both_bodies
    [of "\<lambda>p. Inr no_body_page" "Scanner_fields None None None" "''aaaa''" no_body_page
        "''bbbb''" no_body_page same_parser]
  by (simp add: no_body_page_def)

section \<open>Properties of the controller\<close>

subsection \<open>Seeding the queue\<close>

lemma seed_fold:
  "fold (\<lambda>subdir s. s\<lparr>directories := directories s @ [subdir]\<rparr>) xs s
     = s\<lparr>directories := directories s @ xs\<rparr>"
  by (induction xs arbitrary: s) simp_all

lemma seed_queue_directories:
  "directories (seed_queue self) = directories self @ scanSubdirs self @ [[]]"
  by (simp add: seed_queue_def Let_def seed_fold)

text \<open>
  C5. With the one scan-subdirectory \<^verbatim>\<open>admin/\<close> supplied and an empty queue,
  seeding leaves two entries on the queue, \<^verbatim>\<open>admin/\<close> and the root
  \<^verbatim>\<open>""\<close>, while the job count set by \<^verbatim>\<open>__init__\<close> is 1.
\<close>

theorem seed_queue_adds_root_after_subdirs:
  "directories (seed_queue (plain_controller\<lparr>scanSubdirs := [''admin/'']\<rparr>)) = [''admin/'', []]
   \<and> initial_allJobs (scanSubdirs (plain_controller\<lparr>scanSubdirs := [''admin/'']\<rparr>)) = 1"
  by (simp add: seed_queue_directories initial_allJobs_def plain_controller_def)

subsection \<open>Deep recursion\<close>

lemma strip_query_abc:
  "strip_query ''a/b/c'' = ''a/b/c''" "strip_query ''a/b/c/'' = ''a/b/c/''"
  by (simp_all add: strip_query_def)

lemma deep_dirs_abc:
  "deep_dirs ''a/b/c'' ''a/b/c'' = [''a/'', ''a/b/'']"
  "deep_dirs ''a/b/c/'' ''a/b/c/'' = [''a/'', ''a/b/'', ''a/b/c/'']"
  by code_simp+

text \<open>
  On candidates without a duplicate the loop enqueues exactly those that
  pass the checks in the controller it starts from.
\<close>

lemma enqueue_dirs_distinct:
  "distinct dirs \<Longrightarrow>
     enqueue_dirs dirs (added, self) =
       (added \<or> filter (\<lambda>d. \<not> skipped self d) dirs \<noteq> [],
        enqueued self (filter (\<lambda>d. \<not> skipped self d) dirs))"
proof (induction dirs arbitrary: added self)
  case Nil
  show ?case by (simp add: enqueued_def)
next
  case (Cons d dirs)
  then have d: "d \<notin> set dirs" and dist: "distinct dirs" by simp_all
  show ?case
  proof (cases "skipped self d")
    case True
    then have "enqueue_dirs (d # dirs) (added, self) = enqueue_dirs dirs (added, self)"
      by (auto simp: skipped_def)
    with True Cons.IH [OF dist, of added self] show ?thesis by simp
  next
    case False
    let ?s = "enqueued self [d]"
    have step: "enqueue_dirs (d # dirs) (added, self) = enqueue_dirs dirs (True, ?s)"
      using False by (auto simp: skipped_def enqueued_def)
    have "filter (\<lambda>x. \<not> skipped ?s x) dirs = filter (\<lambda>x. \<not> skipped self x) dirs"
      using d by (intro filter_cong refl) (auto simp: skipped_def enqueued_def)
    with Cons.IH [OF dist, of True ?s] step False show ?thesis
      by (simp add: enqueued_def)
  qed
qed

lemma enqueue_dirs_append:
  "enqueue_dirs (xs @ ys) (added, self) = enqueue_dirs ys (enqueue_dirs xs (added, self))"
  by (induction xs arbitrary: added self) auto

lemma enqueue_dirs_skipped:
  "list_all (skipped self) dirs \<Longrightarrow> enqueue_dirs dirs (added, self) = (added, self)"
  by (induction dirs) (auto simp: skipped_def)

text \<open>A candidate that comes a second time at the end of the list changes nothing.\<close>

lemma enqueue_dirs_repeated:
  assumes "distinct dirs" and "d \<in> set dirs"
  shows "enqueue_dirs (dirs @ [d]) (added, self) = enqueue_dirs dirs (added, self)"
proof -
  let ?new = "filter (\<lambda>x. \<not> skipped self x) dirs"
  have "skipped (enqueued self ?new) d"
  proof (cases "skipped self d")
    case True
    then show ?thesis by (auto simp: skipped_def enqueued_def)
  next
    case False
    with assms(2) have "d \<in> set ?new" by simp
    then show ?thesis by (simp add: skipped_def enqueued_def)
  qed
  then have "enqueue_dirs [d] (added \<or> ?new \<noteq> [], enqueued self ?new)
      = (added \<or> ?new \<noteq> [], enqueued self ?new)"
    by (intro enqueue_dirs_skipped) simp
  then show ?thesis
    by (simp only: enqueue_dirs_append enqueue_dirs_distinct [OF assms(1)])
qed

text \<open>
  C6, as stated, fails: with only deep recursion on, \<^verbatim>\<open>addDirectory\<close> of
  \<^verbatim>\<open>a/b/c\<close> under the current directory \<^verbatim>\<open>""\<close> puts \<^verbatim>\<open>a/\<close> and
  \<^verbatim>\<open>a/b/\<close> on the queue and not \<^verbatim>\<open>a/b/c/\<close>.
\<close>

theorem deep_mode_a_b_c_counterexample:
  "directories (snd (addDirectory (plain_controller\<lparr>deep_recursive := True\<rparr>) ''a/b/c''))
     = [''a/'', ''a/b/'']
   \<and> ''a/b/c/'' \<notin> set (directories
         (snd (addDirectory (plain_controller\<lparr>deep_recursive := True\<rparr>) ''a/b/c'')))"
  by (simp add: addDirectory_def strip_query_abc excluded_def candidate_dirs_def deep_dirs_abc
      Let_def plain_controller_def)

text \<open>
  C6, amended. With deep recursion on, the current directory \<^verbatim>\<open>""\<close> and no
  exclusions, \<^verbatim>\<open>addDirectory\<close> of \<^verbatim>\<open>a/b/c\<close> enqueues exactly the two
  prefixes \<^verbatim>\<open>a/\<close> and \<^verbatim>\<open>a/b/\<close>, one for each slash of the path, when
  forced recursion is off, and exactly the three prefixes \<^verbatim>\<open>a/\<close>,
  \<^verbatim>\<open>a/b/\<close> and \<^verbatim>\<open>a/b/c/\<close> when forced recursion is on;
  \<^verbatim>\<open>addDirectory\<close> of \<^verbatim>\<open>a/b/c/\<close> enqueues exactly these three. Each
  prefix is still subject to the independent checks: it is enqueued unless it
  is a scan-subdirectory, is in the done-set or exceeds the depth cap.
\<close>

theorem deep_mode_prefixes:
  assumes "deep_recursive self" and "currentDirectory self = []" and "excludeSubdirs self = []"
  shows "(\<not> force_recursive self \<longrightarrow>
            addDirectory self ''a/b/c'' = accepted self [''a/'', ''a/b/''])
       \<and> (force_recursive self \<longrightarrow>
            addDirectory self ''a/b/c'' = accepted self [''a/'', ''a/b/'', ''a/b/c/''])
       \<and> addDirectory self ''a/b/c/'' = accepted self [''a/'', ''a/b/'', ''a/b/c/'']"
proof -
  have two: "enqueue_dirs [''a/'', ''a/b/''] (False, self) = accepted self [''a/'', ''a/b/'']"
    using enqueue_dirs_distinct [of "[''a/'', ''a/b/'']" False self]
    by (simp add: accepted_def Let_def del: enqueue_dirs.simps)
  have three: "enqueue_dirs [''a/'', ''a/b/'', ''a/b/c/''] (False, self)
      = accepted self [''a/'', ''a/b/'', ''a/b/c/'']"
    using enqueue_dirs_distinct [of "[''a/'', ''a/b/'', ''a/b/c/'']" False self]
    by (simp add: accepted_def Let_def del: enqueue_dirs.simps)
  have four: "enqueue_dirs [''a/'', ''a/b/'', ''a/b/c/'', ''a/b/c/''] (False, self)
      = accepted self [''a/'', ''a/b/'', ''a/b/c/'']"
    using enqueue_dirs_repeated [of "[''a/'', ''a/b/'', ''a/b/c/'']" "''a/b/c/''" False self] three
    by (simp del: enqueue_dirs.simps)
  have x: "\<not> excluded self p" for p
    using assms(3) by (simp add: excluded_def)
  have "candidate_dirs self ''a/b/c'' =
      (if force_recursive self then [''a/'', ''a/b/'', ''a/b/c/''] else [''a/'', ''a/b/''])"
    using assms(1,2)
    by (simp add: candidate_dirs_def deep_dirs_abc Let_def endswith_def suffix_def)
  moreover have "candidate_dirs self ''a/b/c/'' =
      (if force_recursive self \<or> recursive self
       then [''a/'', ''a/b/'', ''a/b/c/'', ''a/b/c/''] else [''a/'', ''a/b/'', ''a/b/c/''])"
    using assms(1,2)
    by (simp add: candidate_dirs_def deep_dirs_abc Let_def endswith_def suffix_def)
  ultimately show ?thesis
    by (simp add: addDirectory_def strip_query_abc x Let_def two three four
        del: enqueue_dirs.simps)
qed

theorem deep_mode_prefixes_witness:
  "addDirectory (plain_controller\<lparr>deep_recursive := True, doneDirs := [''a/'']\<rparr>) ''a/b/c''
     = (True, enqueued (plain_controller\<lparr>deep_recursive := True, doneDirs := [''a/'']\<rparr>) [''a/b/''])
   \<and> addDirectory (plain_controller\<lparr>deep_recursive := True\<rparr>) ''a/b/c/''
     = (True, enqueued (plain_controller\<lparr>deep_recursive := True\<rparr>) [''a/'', ''a/b/'', ''a/b/c/''])"
  using deep_mode_prefixes [of "plain_controller\<lparr>deep_recursive := True, doneDirs := [''a/'']\<rparr>"]
    deep_mode_prefixes [of "plain_controller\<lparr>deep_recursive := True\<rparr>"]
  by (simp add: plain_controller_def accepted_def skipped_def)

subsection \<open>The done-set\<close>

lemma skipped_enqueued:
  "skipped self d \<Longrightarrow> skipped (enqueued self new) d"
  by (auto simp: skipped_def enqueued_def)

lemma enqueued_enqueued: "enqueued (enqueued self xs) ys = enqueued self (xs @ ys)"
  by (simp add: enqueued_def)

text \<open>
  The loop puts a duplicate-free list of directories, none of them in the
  done-set before, at the end of the queue and of the done-set, and would
  pass over every candidate if it ran again.
\<close>

lemma enqueue_dirs_result:
  "\<exists>new. enqueue_dirs dirs (added, self) = (added \<or> new \<noteq> [], enqueued self new)
      \<and> distinct new \<and> set new \<inter> set (doneDirs self) = {}
      \<and> list_all (skipped (enqueued self new)) dirs"
proof (induction dirs arbitrary: added self)
  case Nil
  show ?case by (rule exI [of _ "[]"]) (simp add: enqueued_def)
next
  case (Cons d dirs)
  show ?case
  proof (cases "skipped self d")
    case True
    from Cons.IH [of added self] obtain new where
      new: "enqueue_dirs dirs (added, self) = (added \<or> new \<noteq> [], enqueued self new)"
        "distinct new" "set new \<inter> set (doneDirs self) = {}"
        "list_all (skipped (enqueued self new)) dirs"
      by blast
    have "enqueue_dirs (d # dirs) (added, self) = enqueue_dirs dirs (added, self)"
      using True by (auto simp: skipped_def)
    with new True show ?thesis
      by (intro exI [of _ new]) (simp add: skipped_enqueued)
  next
    case False
    let ?s = "enqueued self [d]"
    from Cons.IH [of True ?s] obtain new where
      new: "enqueue_dirs dirs (True, ?s) = (True \<or> new \<noteq> [], enqueued ?s new)"
        "distinct new" "set new \<inter> set (doneDirs ?s) = {}"
        "list_all (skipped (enqueued ?s new)) dirs"
      by blast
    have step: "enqueue_dirs (d # dirs) (added, self) = enqueue_dirs dirs (True, ?s)"
      using False by (auto simp: skipped_def enqueued_def)
    have "d \<notin> set new" using new(3) by (auto simp: enqueued_def)
    moreover have "set new \<inter> set (doneDirs self) = {}" using new(3) by (auto simp: enqueued_def)
    moreover have "d \<notin> set (doneDirs self)" using False by (simp add: skipped_def)
    moreover have "skipped (enqueued self (d # new)) d" by (simp add: skipped_def enqueued_def)
    ultimately show ?thesis
      using new step
      by (intro exI [of _ "d # new"]) (simp add: enqueued_enqueued)
  qed
qed

lemma candidate_dirs_enqueued [simp]:
  "candidate_dirs (enqueued self new) path = candidate_dirs self path"
  by (simp add: candidate_dirs_def enqueued_def Let_def)

lemma excluded_enqueued [simp]: "excluded (enqueued self new) path = excluded self path"
  by (simp add: excluded_def enqueued_def)

lemma addDirectory_result:
  "\<exists>new. addDirectory self path = (new \<noteq> [], enqueued self new)
      \<and> distinct new \<and> set new \<inter> set (doneDirs self) = {}
      \<and> (\<not> excluded self (strip_query path) \<longrightarrow>
           list_all (skipped (enqueued self new)) (candidate_dirs self (strip_query path)))"
proof (cases "excluded self (strip_query path)")
  case True
  then show ?thesis
    by (intro exI [of _ "[]"]) (simp add: addDirectory_def enqueued_def Let_def)
next
  case False
  from enqueue_dirs_result [of "candidate_dirs self (strip_query path)" False self]
  obtain new where
    "enqueue_dirs (candidate_dirs self (strip_query path)) (False, self)
       = (False \<or> new \<noteq> [], enqueued self new)"
    "distinct new" "set new \<inter> set (doneDirs self) = {}"
    "list_all (skipped (enqueued self new)) (candidate_dirs self (strip_query path))"
    by blast
  with False show ?thesis
    by (intro exI [of _ new]) (simp add: addDirectory_def Let_def)
qed

lemma skipped_later:
  assumes "skipped self d" and "scanSubdirs later = scanSubdirs self"
    and "recursion_depth later = recursion_depth self"
    and "set (doneDirs self) \<subseteq> set (doneDirs later)"
  shows "skipped later d"
  using assms by (auto simp: skipped_def)

lemma addDirectory_skipped:
  assumes "list_all (skipped self) (candidate_dirs self (strip_query path))"
  shows "addDirectory self path = (False, self)"
  using assms by (simp add: addDirectory_def Let_def enqueue_dirs_skipped)

text \<open>
  C7. A call of \<^verbatim>\<open>addDirectory\<close> appends one and the same duplicate-free
  list of directories, none of which was in the done-set, to the queue and
  to the done-set. A second call with the same path changes nothing and
  returns false. So does a call in any later state of the controller (same
  scan-subdirectories and depth cap, a done-set that still holds the entries
  made by the first call) with any path whose candidate directories are among
  those of the first path, when the first path was not excluded. So a
  directory enters the queue through \<^verbatim>\<open>addDirectory\<close> at most once.
\<close>

theorem addDirectory_idempotent:
  "(\<exists>new. addDirectory self path = (new \<noteq> [], enqueued self new)
        \<and> distinct new \<and> set new \<inter> set (doneDirs self) = {})
   \<and> addDirectory (snd (addDirectory self path)) path = (False, snd (addDirectory self path))
   \<and> (\<not> excluded self (strip_query path) \<and>
       scanSubdirs later = scanSubdirs self \<and> recursion_depth later = recursion_depth self \<and>
       set (doneDirs (snd (addDirectory self path))) \<subseteq> set (doneDirs later) \<and>
       set (candidate_dirs later (strip_query path')) \<subseteq> set (candidate_dirs self (strip_query path))
      \<longrightarrow> addDirectory later path' = (False, later))"
proof -
  from addDirectory_result [of self path] obtain new where
    new: "addDirectory self path = (new \<noteq> [], enqueued self new)"
      "distinct new" "set new \<inter> set (doneDirs self) = {}"
      "\<not> excluded self (strip_query path) \<longrightarrow>
         list_all (skipped (enqueued self new)) (candidate_dirs self (strip_query path))"
    by blast
  have later: "addDirectory later path' = (False, later)"
    if "\<not> excluded self (strip_query path)"
      and "scanSubdirs later = scanSubdirs self" "recursion_depth later = recursion_depth self"
      and "set (doneDirs (enqueued self new)) \<subseteq> set (doneDirs later)"
      and "set (candidate_dirs later (strip_query path')) \<subseteq> set (candidate_dirs self (strip_query path))"
  proof -
    have same: "scanSubdirs later = scanSubdirs (enqueued self new)"
      "recursion_depth later = recursion_depth (enqueued self new)"
      using that(2,3) by (simp_all add: enqueued_def)
    from new(4) that(1)
    have "list_all (skipped (enqueued self new)) (candidate_dirs self (strip_query path))" by simp
    then have "\<forall>d \<in> set (candidate_dirs self (strip_query path)). skipped later d"
      using same that(4) by (auto simp: list_all_iff intro: skipped_later)
    with that(5) have "list_all (skipped later) (candidate_dirs later (strip_query path'))"
      by (auto simp: list_all_iff)
    then show ?thesis by (rule addDirectory_skipped)
  qed
  have same: "addDirectory (enqueued self new) path = (False, enqueued self new)"
  proof (cases "excluded self (strip_query path)")
    case True
    then show ?thesis by (simp add: addDirectory_def Let_def)
  next
    case False
    with new(4) show ?thesis by (simp add: addDirectory_skipped)
  qed
  from new(1-3) have "\<exists>new. addDirectory self path = (new \<noteq> [], enqueued self new)
        \<and> distinct new \<and> set new \<inter> set (doneDirs self) = {}" by blast
  with new(1) same later show ?thesis by simp
qed

theorem addDirectory_idempotent_witness:
  "addDirectory
       ((snd (addDirectory (plain_controller\<lparr>recursive := True\<rparr>) ''admin/''))\<lparr>index := 5\<rparr>)
       ''admin/?page=2''
     = (False, (snd (addDirectory (plain_controller\<lparr>recursive := True\<rparr>) ''admin/''))\<lparr>index := 5\<rparr>)
   \<and> doneDirs (snd (addDirectory (plain_controller\<lparr>recursive := True\<rparr>) ''admin/'')) = [''admin/'']
   \<and> directories (snd (addDirectory (plain_controller\<lparr>recursive := True\<rparr>) ''admin/'')) = [''admin/'']"
proof -
  let ?P = "plain_controller\<lparr>recursive := True\<rparr>"
  let ?L = "(snd (addDirectory ?P ''admin/''))\<lparr>index := 5\<rparr>"
  have s: "strip_query ''admin/'' = ''admin/''" "strip_query ''admin/?page=2'' = ''admin/''"
    by (simp_all add: strip_query_def)
  have x: "\<not> excluded ?P (strip_query ''admin/'')"
    by (simp add: excluded_def plain_controller_def)
  have c: "candidate_dirs ?P ''admin/'' = [''admin/'']"
    by (simp add: candidate_dirs_def plain_controller_def endswith_def suffix_def)
  have a: "addDirectory ?P ''admin/'' = (True, enqueued ?P [''admin/''])"
    using x by (simp add: addDirectory_def s c Let_def)
      (simp add: plain_controller_def enqueued_def py_count_def)
  have l: "scanSubdirs ?L = scanSubdirs ?P" "recursion_depth ?L = recursion_depth ?P"
    "set (doneDirs (snd (addDirectory ?P ''admin/''))) \<subseteq> set (doneDirs ?L)"
    unfolding a by (simp_all add: enqueued_def)
  have "candidate_dirs ?L ''admin/'' = [''admin/'']"
    unfolding a
    by (simp add: candidate_dirs_def plain_controller_def endswith_def suffix_def enqueued_def)
  then have sub: "set (candidate_dirs ?L (strip_query ''admin/?page=2''))
      \<subseteq> set (candidate_dirs ?P (strip_query ''admin/''))"
    by (simp add: s c)
  from addDirectory_idempotent [of ?P "''admin/''" ?L "''admin/?page=2''"] x l sub
  have "addDirectory ?L ''admin/?page=2'' = (False, ?L)"
    by blast
  moreover have "doneDirs (snd (addDirectory ?P ''admin/'')) = [''admin/'']"
    "directories (snd (addDirectory ?P ''admin/'')) = [''admin/'']"
    unfolding a by (simp_all add: enqueued_def plain_controller_def)
  ultimately show ?thesis by blast
qed

subsection \<open>Recursion from the match callback\<close>

lemma status_size_ok_index [simp]:
  "status_size_ok e (self\<lparr>index := i\<rparr>) path = status_size_ok e self path"
  by (simp add: status_size_ok_def Let_def cong: if_cong)

lemma excluded_content_index [simp]:
  "excluded_content e (self\<lparr>index := i\<rparr>) path = excluded_content e self path"
  by (simp add: excluded_content_def Let_def cong: if_cong)






subsection \<open>The skip status\<close>

text \<open>
  The match callback leaves the list of skip statuses as it is, and a skip
  signal that is set stays set when 0 is not a skip status.
\<close>

lemma addDirectory_keeps:
  "skip_on_status (snd (addDirectory self path)) = skip_on_status self"
  "status_skip (snd (addDirectory self path)) = status_skip self"
proof -
  from addDirectory_result [of self path] obtain new where
    "addDirectory self path = (new \<noteq> [], enqueued self new)" by blast
  then show "skip_on_status (snd (addDirectory self path)) = skip_on_status self"
    "status_skip (snd (addDirectory self path)) = status_skip self"
    by (simp_all add: enqueued_def)
qed

lemma report_finding_keeps:
  "skip_on_status (report_finding path r) = skip_on_status (snd r)"
  "status_skip (report_finding path r) = status_skip (snd r)"
  by (cases r; simp add: report_finding_def)+

lemma recurse_keeps:
  assumes "recurse e self path = Inr r"
  shows "skip_on_status (snd r) = skip_on_status self" "status_skip (snd r) = status_skip self"
  using assms
  by (auto simp: recurse_def addRedirectDirectory_def Let_def addDirectory_keeps
      split: if_splits sum.splits)

lemma matchCallback_keeps:
  "skip_on_status (snd (matchCallback e self path)) = skip_on_status self"
  by (auto simp: matchCallback_def Let_def report_finding_keeps recurse_keeps
      split: sum.splits)

lemma matchCallback_signalled:
  assumes "signalled self" and "0 \<notin> set (skip_on_status self)"
  shows "signalled (snd (matchCallback e self path))"
  using assms
  by (auto simp: matchCallback_def Let_def signalled_def report_finding_keeps recurse_keeps
      split: sum.splits)

lemma deliver_Cons:
  "deliver e (path # results) self = deliver e results (snd (matchCallback e self path))"
  by (simp add: deliver_def)

lemma deliver_signalled:
  "signalled self \<Longrightarrow> 0 \<notin> set (skip_on_status self) \<Longrightarrow> signalled (deliver e results self)"
proof (induction results arbitrary: self)
  case Nil
  then show ?case by (simp add: deliver_def)
next
  case (Cons path results)
  from Cons.prems have "signalled (snd (matchCallback e self path))"
    by (rule matchCallback_signalled)
  moreover from Cons.prems(2) have "0 \<notin> set (skip_on_status (snd (matchCallback e self path)))"
    by (simp add: matchCallback_keeps)
  ultimately show ?case
    unfolding deliver_Cons by (rule Cons.IH)
qed

lemma processPaths_results:
  "processPaths e (map Result results @ events) self
     = processPaths e events (deliver e results self)"
  by (induction results arbitrary: self) (simp_all add: deliver_def)

lemma processPaths_pending:
  "processPaths e before start = Pending self \<Longrightarrow>
     processPaths e (before @ events) start = processPaths e events self"
proof (induction before arbitrary: start)
  case Nil
  then show ?case by simp
next
  case (Cons ev before)
  then show ?case
    by (cases ev) (auto split: if_splits)
qed

lemma processPaths_signalled:
  assumes "signalled self"
  shows "processPaths e (Poll w # events) self =
           (if finished w then Returned self
            else if workers_stop w then Raised SkipTargetInterrupt else Spinning)"
  using assms by (simp add: signalled_def)

text \<open>
  C9, amended. For a result whose status is in the skip-on-status list, the
  match callback counts the result, records the status as the skip signal and
  does nothing else: no rejection, no queue entry, no report. When 0 is not
  a skip status, then whatever results are delivered after it, at the next
  poll at which the prober has not finished and the workers stop,
  \<^verbatim>\<open>processPaths\<close> raises the skip-target interrupt, and \<^verbatim>\<open>prepare\<close>
  ends with it for a job in which the result arrives, so that the target is
  aborted; if the prober has finished at that poll, \<^verbatim>\<open>processPaths\<close>
  returns normally, with the later results handled by the match callback as
  any other.
\<close>

theorem skip_status_signal:
  assumes "p_status path \<in> set (skip_on_status self)" and "0 \<notin> set (skip_on_status self)"
  shows "matchCallback e self path =
           (None, self\<lparr>index := index self + 1, status_skip := Some (p_status path)\<rparr>)
       \<and> (\<not> finished w \<and> workers_stop w \<longrightarrow>
            processPaths e (Result path # map Result later @ Poll w # events) self
              = Raised SkipTargetInterrupt)
       \<and> (\<not> finished w \<and> workers_stop w \<and> directories start = dir # queue \<and>
           processPaths e before (job_start start dir queue) = Pending self \<longrightarrow>
            prepare e ((before @ Result path # map Result later @ Poll w # events) # rest) start
              = Raised SkipTargetInterrupt)
       \<and> (finished w \<longrightarrow>
            processPaths e (Result path # map Result later @ Poll w # events) self
              = Returned (deliver e later
                           (self\<lparr>index := index self + 1, status_skip := Some (p_status path)\<rparr>)))"
proof -
  let ?s = "self\<lparr>index := index self + 1, status_skip := Some (p_status path)\<rparr>"
  have cb: "matchCallback e self path = (None, ?s)"
    using assms(1) by (simp add: matchCallback_def Let_def)
  from assms have "p_status path \<noteq> 0" by auto
  then have "signalled ?s" by (simp add: signalled_def)
  moreover have "0 \<notin> set (skip_on_status ?s)" using assms(2) by simp
  ultimately have sig: "signalled (deliver e later ?s)" by (rule deliver_signalled)
  have "processPaths e (Result path # map Result later @ Poll w # events) self
      = processPaths e (map Result later @ Poll w # events) ?s"
    by (simp add: cb)
  also have "\<dots> = processPaths e (Poll w # events) (deliver e later ?s)"
    by (rule processPaths_results)
  also have "\<dots> = (if finished w then Returned (deliver e later ?s)
         else if workers_stop w then Raised SkipTargetInterrupt else Spinning)"
    using sig by (rule processPaths_signalled)
  finally have run: "processPaths e (Result path # map Result later @ Poll w # events) self
      = (if finished w then Returned (deliver e later ?s)
         else if workers_stop w then Raised SkipTargetInterrupt else Spinning)" .
  have job: "prepare e ((before @ Result path # map Result later @ Poll w # events) # rest) start
      = Raised SkipTargetInterrupt"
    if "\<not> finished w" "workers_stop w" "directories start = dir # queue"
      "processPaths e before (job_start start dir queue) = Pending self"
  proof -
    from that(4) have "processPaths e (before @ Result path # map Result later @ Poll w # events)
        (job_start start dir queue)
      = processPaths e (Result path # map Result later @ Poll w # events) self"
      by (rule processPaths_pending)
    with run that(1-3) show ?thesis by simp
  qed
  from cb run job show ?thesis by simp
qed

theorem skip_status_signal_witness:
  "prepare example_env
      [[Result limited_result, Result plain_result,
        Poll \<lparr>finished = False, runtime = 1, workers_stop = True\<rparr>,
        Result plain_result, Poll \<lparr>finished = True, runtime = 2, workers_stop = True\<rparr>]]
      (plain_controller\<lparr>skip_on_status := [429], directories := [[]]\<rparr>)
     = Raised SkipTargetInterrupt"
proof -
  let ?start = "plain_controller\<lparr>skip_on_status := [429], directories := [[]]\<rparr>"
  have "p_status limited_result \<in> set (skip_on_status (job_start ?start [] []))"
    "0 \<notin> set (skip_on_status (job_start ?start [] []))"
    "directories ?start = [] # []"
    "processPaths example_env [] (job_start ?start [] []) = Pending (job_start ?start [] [])"
    by (simp_all add: limited_result_def plain_controller_def job_start_def)
  with skip_status_signal
    [where path = limited_result and self = "job_start ?start [] []"
       and w = "\<lparr>finished = False, runtime = 1, workers_stop = True\<rparr>"
       and e = example_env and later = "[plain_result]"
       and events = "[Result plain_result,
                      Poll \<lparr>finished = True, runtime = 2, workers_stop = True\<rparr>]"
       and start = ?start and dir = "[]" and queue = "[]" and before = "[]" and rest = "[]"]
  show ?thesis by (simp del: processPaths.simps prepare.simps)
qed

text \<open>
  C9, as stated, fails: the only job of a target receives a result with the
  skip status 429 and then a result with status 200, and the prober has
  finished at the next poll. The second result is reported as a finding and
  the target completes without the skip-target interrupt.
\<close>

theorem skip_status_late_counterexample:
  "(case prepare example_env
          [[Result limited_result, Result plain_result,
            Poll \<lparr>finished = True, runtime = 0, workers_stop = True\<rparr>]]
          (plain_controller\<lparr>skip_on_status := [429], directories := [[]]\<rparr>) of
      Returned s \<Rightarrow> Some (status_skip s, reported s, completed s)
    | Raised err \<Rightarrow> None
    | Spinning \<Rightarrow> None
    | Pending s \<Rightarrow> None)
     = Some (Some 429, [(''b'', 200)], True)"
  by (simp add: matchCallback_def status_size_ok_def excluded_content_def recurse_def
      Let_def limited_result_def plain_result_def report_finding_def plain_controller_def
      job_start_def)

end
